theory Spec2Isabelle
  imports Complex_Main
begin

section \<open>The DOM as the utilities read it\<close>

text \<open>
  The library never builds nodes; it only reads properties of nodes handed to it by the
  browser. A node is an object reference (\<open>node_id\<close>), and the document is a store that
  gives every reference the properties the functions read. A property that is \<open>null\<close> or
  \<open>undefined\<close> on a node is \<open>None\<close>; object references are always truthy, so
  \<open>a || b\<close> on references is "the first that is not \<open>None\<close>".
\<close>

type_synonym node_id = nat

text \<open>The classes that the \<open>instanceof\<close> tests of the source tell apart.\<close>

datatype node_class =
    DocumentC
  | ShadowRootC
  | HTMLElementC
  | HTMLSlotElementC
  | SVGElementC
  | TextC
  | CommentC

text \<open>\<open>HTMLSlotElement\<close> extends \<open>HTMLElement\<close>.\<close>

fun instanceofHTMLElement :: "node_class \<Rightarrow> bool" where
  "instanceofHTMLElement HTMLElementC = True"
| "instanceofHTMLElement HTMLSlotElementC = True"
| "instanceofHTMLElement _ = False"

fun instanceofHTMLSlotElement :: "node_class \<Rightarrow> bool" where
  "instanceofHTMLSlotElement HTMLSlotElementC = True"
| "instanceofHTMLSlotElement _ = False"

fun instanceofShadowRoot :: "node_class \<Rightarrow> bool" where
  "instanceofShadowRoot ShadowRootC = True"
| "instanceofShadowRoot _ = False"

record dom_node =
  cls :: node_class
  nodeType :: nat
  parentNode :: "node_id option"
  childNodes :: "node_id list"
  children :: "node_id list"
  shadowRoot :: "node_id option"
  host :: "node_id option"
  assignedSlot :: "node_id option"
  assignedNodes :: "node_id list"
  activeElement :: "node_id option"

text \<open>
  \<open>children\<close> is the element-only child collection, \<open>childNodes\<close> all children;
  \<open>assignedNodes\<close> is what \<open>assignedNodes({flatten: true})\<close> returns on a slot.
  \<open>nodes\<close> lists the objects that exist; \<open>body\<close> is \<open>document.body\<close>, which the
  DOM allows to be \<open>null\<close>.
\<close>

record dom =
  nodes :: "node_id list"
  heap :: "node_id \<Rightarrow> dom_node"
  body :: "node_id option"

section \<open>walkComposedTree\<close>

text \<open>
  The \<open>children\<close> constant of the source: shadow content for a host, the flattened
  assigned nodes for a slot, the ordinary child nodes otherwise.
\<close>

definition composedChildren :: "dom \<Rightarrow> node_id \<Rightarrow> node_id list" where
  "composedChildren d node =
     (case (if instanceofHTMLElement (cls (heap d node)) then shadowRoot (heap d node) else None) of
        Some sr \<Rightarrow> children (heap d sr)
      | None \<Rightarrow>
          if instanceofHTMLSlotElement (cls (heap d node))
          then assignedNodes (heap d node)
          else childNodes (heap d node))"

text \<open>
  \<open>yield*\<close> over the children in order: the sequences are concatenated; if one of them
  never ends, neither does the whole.
\<close>

fun yieldAll :: "'a list option list \<Rightarrow> 'a list option" where
  "yieldAll [] = Some []"
| "yieldAll (None # rs) = None"
| "yieldAll (Some ys # rs) = (case yieldAll rs of None \<Rightarrow> None | Some zs \<Rightarrow> Some (ys @ zs))"

text \<open>
  The generator, run to its end. The first argument bounds the depth of the recursion:
  \<open>None\<close> says that the bound was too small for the structure under \<open>node\<close>.
  \<open>whatToShow = 0\<close> is the falsy "no filtering" value.
\<close>

fun walkComposedTree ::
  "nat \<Rightarrow> dom \<Rightarrow> node_id \<Rightarrow> nat \<Rightarrow> (node_id \<Rightarrow> bool) \<Rightarrow> (node_id \<Rightarrow> bool) \<Rightarrow> node_id list option"
where
  "walkComposedTree 0 d node whatToShow filterFn skipNode = None"
| "walkComposedTree (Suc fuel) d node whatToShow filterFn skipNode =
     (if (whatToShow \<noteq> 0 \<and> nodeType (heap d node) \<noteq> whatToShow) \<or> skipNode node
      then Some []
      else
        (case yieldAll (map (\<lambda>child. walkComposedTree fuel d child whatToShow filterFn skipNode)
                            (composedChildren d node)) of
           None \<Rightarrow> None
         | Some rest \<Rightarrow> Some ((if filterFn node then [node] else []) @ rest)))"

text \<open>The default arguments: \<open>filter = () => true\<close> and \<open>skipNode = () => false\<close>.\<close>

definition keepAll :: "node_id \<Rightarrow> bool" where
  "keepAll n = True"

definition skipNone :: "node_id \<Rightarrow> bool" where
  "skipNone n = False"

subsection \<open>The plain traversal that the specification compares with\<close>

text \<open>
  A finite tree of node references, and its depth-first pre-order traversal: the node,
  then the traversals of its subtrees from left to right. This definition follows the
  words of the specification, not the source.
\<close>

datatype dom_tree = DomTree (treeRoot: node_id) (subtrees: "dom_tree list")

fun preorder :: "dom_tree \<Rightarrow> node_id list" where
  "preorder (DomTree n ts) = n # concat (map preorder ts)"

fun treeDepth :: "dom_tree \<Rightarrow> nat" where
  "treeDepth (DomTree n ts) = Suc (foldr max (map treeDepth ts) 0)"

text \<open>
  \<open>isPlainTree d t\<close>: \<open>t\<close> is the tree that the \<open>childNodes\<close> of the store span below
  its root, and no node of it hosts a shadow subtree or is a slot.
\<close>

fun isPlainTree :: "dom \<Rightarrow> dom_tree \<Rightarrow> bool" where
  "isPlainTree d (DomTree n ts) =
     (childNodes (heap d n) = map treeRoot ts
      \<and> shadowRoot (heap d n) = None
      \<and> \<not> instanceofHTMLSlotElement (cls (heap d n))
      \<and> (\<forall>t \<in> set ts. isPlainTree d t))"

subsection \<open>Shape of the store\<close>



section \<open>composedAncestors\<close>

text \<open>The \<open>next\<close> constant of the loop body: the composed parent as this function computes it.\<close>

definition composedNext :: "dom \<Rightarrow> node_id \<Rightarrow> node_id option" where
  "composedNext d current =
     (case (if instanceofHTMLElement (cls (heap d current))
            then assignedSlot (heap d current) else None) of
        Some slot \<Rightarrow> Some slot
      | None \<Rightarrow>
          if instanceofShadowRoot (cls (heap d current))
          then host (heap d current)
          else parentNode (heap d current))"

text \<open>
  The generator run to its end; the argument is the loop variable \<open>current\<close>, which
  starts at \<open>node\<close>. \<open>None\<close> as a result says that the loop never ends.
\<close>

partial_function (option) composedAncestors :: "dom \<Rightarrow> node_id option \<Rightarrow> node_id list option" where
  "composedAncestors d current =
     (case current of
        None \<Rightarrow> Some []
      | Some c \<Rightarrow>
          (let next = composedNext d c in
           Option.bind (composedAncestors d next)
             (\<lambda>rest. Some ((case next of Some nx \<Rightarrow> [nx] | None \<Rightarrow> []) @ rest))))"

declare composedAncestors.simps [code]

text \<open>
  A store is well formed for the upward walk when some depth decreases along every
  composed-parent step: the chain from any node reaches a node without composed parent.
\<close>

definition composedWellFormed :: "dom \<Rightarrow> (node_id \<Rightarrow> nat) \<Rightarrow> bool" where
  "composedWellFormed d depth =
     (\<forall>n \<in> set (nodes d).
        (case composedNext d n of
           None \<Rightarrow> True
         | Some p \<Rightarrow> p \<in> set (nodes d) \<and> depth p < depth n))"

section \<open>deepContains\<close>

text \<open>\<open>current.assignedSlot || current.parentNode || current.host\<close>\<close>

definition deepParent :: "dom \<Rightarrow> node_id \<Rightarrow> node_id option" where
  "deepParent d current =
     (case assignedSlot (heap d current) of
        Some slot \<Rightarrow> Some slot
      | None \<Rightarrow>
          (case parentNode (heap d current) of
             Some p \<Rightarrow> Some p
           | None \<Rightarrow> host (heap d current)))"

text \<open>
  The third argument is the loop variable \<open>current\<close>, which starts at \<open>target\<close>;
  \<open>None\<close> as a result says that the loop never ends.
\<close>

partial_function (option) deepContains :: "dom \<Rightarrow> node_id \<Rightarrow> node_id option \<Rightarrow> bool option" where
  "deepContains d container current =
     (case current of
        None \<Rightarrow> Some False
      | Some c \<Rightarrow>
          (let parent = deepParent d c in
           if parent = Some container then Some True
           else deepContains d container parent))"

declare deepContains.simps [code]

text \<open>
  The properties on which the two upward steps can differ, as the DOM has them for
  shadow roots, and the restriction under which they agree: only HTML elements are
  assigned to slots.
\<close>

definition slottedAreHTMLElements :: "dom \<Rightarrow> bool" where
  "slottedAreHTMLElements d =
     (\<forall>n \<in> set (nodes d).
        (assignedSlot (heap d n) \<noteq> None \<longrightarrow> instanceofHTMLElement (cls (heap d n)))
        \<and> (instanceofShadowRoot (cls (heap d n)) \<longrightarrow> parentNode (heap d n) = None)
        \<and> (\<not> instanceofShadowRoot (cls (heap d n)) \<longrightarrow> host (heap d n) = None))"

section \<open>getDeepActiveElement\<close>

text \<open>
  The argument \<open>root'\<close> is the \<open>root\<close> of the source (\<open>None\<close> for \<open>null\<close>); the result
  is the returned reference, \<open>Some None\<close> when the function returns \<open>null\<close>, and \<open>None\<close>
  when the recursion never ends.
\<close>

partial_function (option) getDeepActiveElement :: "dom \<Rightarrow> node_id option \<Rightarrow> node_id option option" where
  "getDeepActiveElement d root' =
     (case (case root' of None \<Rightarrow> None | Some r \<Rightarrow> activeElement (heap d r)) of
        Some activeEl \<Rightarrow>
          (case shadowRoot (heap d activeEl) of
             Some sr \<Rightarrow>
               Option.bind (getDeepActiveElement d (Some sr))
                 (\<lambda>deeper. Some (case deeper of None \<Rightarrow> Some activeEl | Some el \<Rightarrow> Some el))
           | None \<Rightarrow> Some (Some activeEl))
      | None \<Rightarrow> Some (body d))"

declare getDeepActiveElement.simps [code]

text \<open>The shadow root that the recursion enters from a root, if any.\<close>

definition activeShadowRoot :: "dom \<Rightarrow> node_id \<Rightarrow> node_id option" where
  "activeShadowRoot d r =
     (case activeElement (heap d r) of
        None \<Rightarrow> None
      | Some activeEl \<Rightarrow> shadowRoot (heap d activeEl))"

text \<open>Shadow subtrees do not nest for ever: some measure decreases on entering one.\<close>

definition shadowNestingFinite :: "dom \<Rightarrow> (node_id \<Rightarrow> nat) \<Rightarrow> bool" where
  "shadowNestingFinite d level =
     (\<forall>r \<in> set (nodes d).
        (case activeShadowRoot d r of
           None \<Rightarrow> True
         | Some sr \<Rightarrow> sr \<in> set (nodes d) \<and> level sr < level r))"

section \<open>redispatchEventFromEvent\<close>

text \<open>
  An event with the flags the function reads and the calls made on it so far. The
  dictionary passed to the constructor is \<open>{...ev, ...options}\<close>: the own enumerable
  properties of the event, overridden by the options.
\<close>

datatype event_call = StopPropagation | PreventDefault

record event =
  evType :: string
  bubbles :: bool
  cancelable :: bool
  composed :: bool
  ownProperties :: "string \<rightharpoonup> bool"
  calls :: "event_call list"

definition stopPropagation :: "event \<Rightarrow> event" where
  "stopPropagation ev = ev\<lparr>calls := calls ev @ [StopPropagation]\<rparr>"

definition preventDefault :: "event \<Rightarrow> event" where
  "preventDefault ev = ev\<lparr>calls := calls ev @ [PreventDefault]\<rparr>"

text \<open>The event constructor reads the three flags from its dictionary, absent meaning false.\<close>

definition constructEvent :: "string \<Rightarrow> (string \<rightharpoonup> bool) \<Rightarrow> event" where
  "constructEvent ty init =
     \<lparr>evType = ty,
      bubbles = (init ''bubbles'' = Some True),
      cancelable = (init ''cancelable'' = Some True),
      composed = (init ''composed'' = Some True),
      ownProperties = Map.empty,
      calls = []\<rparr>"

text \<open>
  \<open>dispatchEvent\<close> belongs to the browser and runs the listeners of the page; it is a
  parameter. The result is the returned boolean and the original event after the calls.
\<close>

definition redispatchEventFromEvent ::
  "(node_id \<Rightarrow> event \<Rightarrow> bool) \<Rightarrow> dom \<Rightarrow> node_id \<Rightarrow> event \<Rightarrow> (string \<rightharpoonup> bool) \<Rightarrow> bool \<times> event"
where
  "redispatchEventFromEvent dispatchEvent d element ev options =
     (let ev1 = (if bubbles ev \<and> (shadowRoot (heap d element) = None \<or> composed ev)
                 then stopPropagation ev else ev);
          copy = constructEvent (evType ev) (ownProperties ev ++ options);
          dispatched = dispatchEvent element copy;
          ev2 = (if \<not> dispatched then preventDefault ev1 else ev1)
      in (dispatched, ev2))"

text \<open>
  The dispatch of the DOM standard for one target with its listeners, each listener
  given by whether it calls \<open>preventDefault\<close> on the event it receives: the dispatch
  reports \<open>false\<close> exactly when the event is cancelable and a listener cancelled it.
\<close>

definition dispatchWithListeners :: "(node_id \<Rightarrow> (event \<Rightarrow> bool) list) \<Rightarrow> node_id \<Rightarrow> event \<Rightarrow> bool" where
  "dispatchWithListeners listeners element e =
     (\<not> (cancelable e \<and> list_ex (\<lambda>l. l e) (listeners element)))"

text \<open>
  A cancelable click, as the browser hands it over, and a page in which every element has
  one listener that cancels what it receives.
\<close>

definition clickEvent :: event where
  "clickEvent =
     \<lparr>evType = ''click'', bubbles = True, cancelable = True, composed = True,
      ownProperties = [''isTrusted'' \<mapsto> True], calls = []\<rparr>"

definition cancellingListener :: "event \<Rightarrow> bool" where
  "cancellingListener e = True"

definition cancellingListeners :: "node_id \<Rightarrow> (event \<Rightarrow> bool) list" where
  "cancellingListeners element = [cancellingListener]"

definition cancelableOption :: "string \<rightharpoonup> bool" where
  "cancelableOption = [''cancelable'' \<mapsto> True]"

section \<open>isClickInsideRect\<close>

text \<open>Coordinates are numbers; they are taken as reals, so rounding and NaN are left out.\<close>

record rect =
  top' :: real
  left :: real
  height :: real
  width :: real

record pointer_event =
  clientX :: real
  clientY :: real

definition isClickInsideRect :: "rect \<Rightarrow> pointer_event \<Rightarrow> bool" where
  "isClickInsideRect r ev =
     (clientY ev \<ge> top' r \<and> clientY ev \<le> top' r + height r
      \<and> clientX ev \<ge> left r \<and> clientX ev \<le> left r + width r)"

section \<open>randomID\<close>

text \<open>
  \<open>String.prototype.substring(start, end)\<close>: both indices are clamped to the string, and
  they are swapped when the start is the larger one.
\<close>

definition substring :: "string \<Rightarrow> int \<Rightarrow> int \<Rightarrow> string" where
  "substring s start end' =
     (let len = int (length s);
          intStart = min (max start 0) len;
          intEnd = min (max end' 0) len;
          from = min intStart intEnd;
          to = max intStart intEnd
      in take (nat (to - from)) (drop (nat from) s))"

text \<open>
  \<open>Math.random().toString(36)\<close> is the runtime's: the first argument stands for the string
  it produced, \<open>0\<close> or \<open>0.\<close> followed by base-36 digits.
\<close>

definition randomID :: "string \<Rightarrow> int \<Rightarrow> string" where
  "randomID random36 len = substring random36 2 len"

definition isBase36Digit :: "char \<Rightarrow> bool" where
  "isBase36Digit c = (c \<in> set ''0123456789abcdefghijklmnopqrstuvwxyz'')"

definition isRandom36 :: "string \<Rightarrow> bool" where
  "isRandom36 s =
     (s = ''0'' \<or> (take 2 s = ''0.'' \<and> drop 2 s \<noteq> [] \<and> list_all isBase36Digit (drop 2 s)))"

section \<open>Example documents\<close>

definition blankNode :: dom_node where
  "blankNode =
     \<lparr>cls = CommentC, nodeType = 8, parentNode = None, childNodes = [], children = [],
      shadowRoot = None, host = None, assignedSlot = None, assignedNodes = [],
      activeElement = None\<rparr>"

text \<open>
  A document (0) with a custom element (1) whose light-DOM child is a text node (4); the
  element hosts a shadow root (2) that holds a slot (3), to which the text is assigned.
\<close>

definition slottedTextDoc :: dom where
  "slottedTextDoc =
     \<lparr>nodes = [0, 1, 2, 3, 4],
      heap = (\<lambda>_. blankNode)
        (0 := blankNode\<lparr>cls := DocumentC, nodeType := 9, childNodes := [1], children := [1]\<rparr>,
         1 := blankNode\<lparr>cls := HTMLElementC, nodeType := 1, parentNode := Some 0,
                childNodes := [4], shadowRoot := Some 2\<rparr>,
         2 := blankNode\<lparr>cls := ShadowRootC, nodeType := 11, host := Some 1,
                childNodes := [3], children := [3]\<rparr>,
         3 := blankNode\<lparr>cls := HTMLSlotElementC, nodeType := 1, parentNode := Some 2,
                assignedNodes := [4]\<rparr>,
         4 := blankNode\<lparr>cls := TextC, nodeType := 3, parentNode := Some 1,
                assignedSlot := Some 3\<rparr>),
      body = None\<rparr>"


text \<open>The same document with a \<open>span\<close> element in the place of the text.\<close>

definition slottedSpanDoc :: dom where
  "slottedSpanDoc =
     \<lparr>nodes = [0, 1, 2, 3, 4],
      heap = (\<lambda>_. blankNode)
        (0 := blankNode\<lparr>cls := DocumentC, nodeType := 9, childNodes := [1], children := [1]\<rparr>,
         1 := blankNode\<lparr>cls := HTMLElementC, nodeType := 1, parentNode := Some 0,
                childNodes := [4], children := [4], shadowRoot := Some 2\<rparr>,
         2 := blankNode\<lparr>cls := ShadowRootC, nodeType := 11, host := Some 1,
                childNodes := [3], children := [3]\<rparr>,
         3 := blankNode\<lparr>cls := HTMLSlotElementC, nodeType := 1, parentNode := Some 2,
                assignedNodes := [4]\<rparr>,
         4 := blankNode\<lparr>cls := HTMLElementC, nodeType := 1, parentNode := Some 1,
                assignedSlot := Some 3\<rparr>),
      body = None\<rparr>"

text \<open>
  A document (0) with \<open>html\<close> (1), \<open>body\<close> (2) and in it a \<open>div\<close> (3) holding a text (4)
  and a \<open>span\<close> (5) that holds a text (6): no shadow subtree, no slot.
\<close>

definition plainDoc :: dom where
  "plainDoc =
     \<lparr>nodes = [0, 1, 2, 3, 4, 5, 6],
      heap = (\<lambda>_. blankNode)
        (0 := blankNode\<lparr>cls := DocumentC, nodeType := 9, childNodes := [1], children := [1]\<rparr>,
         1 := blankNode\<lparr>cls := HTMLElementC, nodeType := 1, parentNode := Some 0,
                childNodes := [2], children := [2]\<rparr>,
         2 := blankNode\<lparr>cls := HTMLElementC, nodeType := 1, parentNode := Some 1,
                childNodes := [3], children := [3]\<rparr>,
         3 := blankNode\<lparr>cls := HTMLElementC, nodeType := 1, parentNode := Some 2,
                childNodes := [4, 5], children := [5]\<rparr>,
         4 := blankNode\<lparr>cls := TextC, nodeType := 3, parentNode := Some 3\<rparr>,
         5 := blankNode\<lparr>cls := HTMLElementC, nodeType := 1, parentNode := Some 3,
                childNodes := [6]\<rparr>,
         6 := blankNode\<lparr>cls := TextC, nodeType := 3, parentNode := Some 5\<rparr>),
      body = Some 2\<rparr>"

definition plainDocTree :: dom_tree where
  "plainDocTree =
     DomTree 0 [DomTree 1 [DomTree 2 [DomTree 3 [DomTree 4 [], DomTree 5 [DomTree 6 []]]]]]"

text \<open>
  A document (0) with \<open>html\<close> (1) and under it an element (2) and a focused custom
  element (3) that hosts a shadow root (4) with a button (5). The first parameter is
  \<open>document.body\<close> (\<open>Some 2\<close>, or \<open>None\<close> for a document without body element), the second
  the active element of the shadow root (\<open>Some 5\<close> when the button has the focus, \<open>None\<close>
  when the host itself has it).
\<close>

definition focusDoc :: "node_id option \<Rightarrow> node_id option \<Rightarrow> dom" where
  "focusDoc bodyRef inner =
     \<lparr>nodes = [0, 1, 2, 3, 4, 5],
      heap = (\<lambda>_. blankNode)
        (0 := blankNode\<lparr>cls := DocumentC, nodeType := 9, childNodes := [1], children := [1],
                activeElement := Some 3\<rparr>,
         1 := blankNode\<lparr>cls := HTMLElementC, nodeType := 1, parentNode := Some 0,
                childNodes := [2, 3], children := [2, 3]\<rparr>,
         2 := blankNode\<lparr>cls := HTMLElementC, nodeType := 1, parentNode := Some 1\<rparr>,
         3 := blankNode\<lparr>cls := HTMLElementC, nodeType := 1, parentNode := Some 1,
                shadowRoot := Some 4\<rparr>,
         4 := blankNode\<lparr>cls := ShadowRootC, nodeType := 11, host := Some 3,
                childNodes := [5], children := [5], activeElement := inner\<rparr>,
         5 := blankNode\<lparr>cls := HTMLElementC, nodeType := 1, parentNode := Some 4\<rparr>),
      body = bodyRef\<rparr>"

text \<open>
  In the example documents the references grow downwards, so this measure decreases from
  a node to the nodes below it.
\<close>

definition countdown :: "node_id \<Rightarrow> nat" where
  "countdown n = 6 - n"

section \<open>Properties of walkComposedTree\<close>

lemma keepAll_eq: "keepAll = (\<lambda>_. True)"
  by (rule ext) (simp add: keepAll_def)

lemma yieldAll_map_filter:
  "yieldAll (map (\<lambda>c. map_option (filter P) (g c)) cs) = map_option (filter P) (yieldAll (map g cs))"
proof (induction cs)
  case Nil
  show ?case by simp
next
  case (Cons c cs)
  show ?case
  proof (cases "g c")
    case None
    then show ?thesis by simp
  next
    case (Some ys)
    with Cons show ?thesis by (cases "yieldAll (map g cs)") simp_all
  qed
qed

text \<open>
  What a walk with a keep predicate produces is what the walk that keeps everything
  produces, with the rejected nodes removed: the predicate has no say on the descent.
\<close>

lemma walk_filter_only_emission:
  "walkComposedTree fuel d node w f s = map_option (filter f) (walkComposedTree fuel d node w keepAll s)"
  unfolding keepAll_eq
proof (induction fuel arbitrary: node)
  case 0
  show ?case by simp
next
  case (Suc fuel)
  have eq: "(\<lambda>child. walkComposedTree fuel d child w f s)
      = (\<lambda>child. map_option (filter f) (walkComposedTree fuel d child w (\<lambda>_. True) s))"
    using Suc.IH by blast
  show ?case
    by (simp add: eq yieldAll_map_filter split: option.splits)
qed

text \<open>
  C3. The keep predicate (\<open>filter\<close>) returning false on a node only suppresses the
  emission of that node: the walk is the walk that keeps every node, filtered, and at a
  rejected node that is neither pruned nor of the wrong type the walk is the concatenation
  of the walks of its composed children, so its matching descendants are still produced.
  The prune predicate (\<open>skipNode\<close>) returning true, and likewise an active node-type
  filter that the node's type does not match, ends the branch: nothing is emitted and
  there is no descent.
\<close>

theorem walkComposedTree_keep_and_prune:
  "walkComposedTree fuel d node w f s
     = map_option (filter f) (walkComposedTree fuel d node w keepAll s)
   \<and> ((w \<noteq> 0 \<and> nodeType (heap d node) \<noteq> w) \<or> s node
        \<longrightarrow> walkComposedTree (Suc fuel) d node w f s = Some [])
   \<and> (\<not> ((w \<noteq> 0 \<and> nodeType (heap d node) \<noteq> w) \<or> s node) \<and> \<not> f node
        \<longrightarrow> walkComposedTree (Suc fuel) d node w f s
            = yieldAll (map (\<lambda>child. walkComposedTree fuel d child w f s) (composedChildren d node)))"
proof (intro conjI impI)
  show "walkComposedTree fuel d node w f s
     = map_option (filter f) (walkComposedTree fuel d node w keepAll s)"
    by (rule walk_filter_only_emission)
next
  assume "(w \<noteq> 0 \<and> nodeType (heap d node) \<noteq> w) \<or> s node"
  then show "walkComposedTree (Suc fuel) d node w f s = Some []"
    by auto
next
  assume "\<not> ((w \<noteq> 0 \<and> nodeType (heap d node) \<noteq> w) \<or> s node) \<and> \<not> f node"
  then show "walkComposedTree (Suc fuel) d node w f s
            = yieldAll (map (\<lambda>child. walkComposedTree fuel d child w f s) (composedChildren d node))"
    by (auto split: option.splits)
qed

text \<open>
  In the plain document, from the \<open>div\<close> (3): a keep predicate that rejects the \<open>div\<close>
  still produces the three nodes below it; pruning the \<open>div\<close>, or asking for text nodes
  only, produces nothing.
\<close>

theorem walkComposedTree_keep_and_prune_witness:
  "\<not> (3::nat) < 3 \<and> \<not> skipNone 3
   \<and> walkComposedTree 4 plainDoc 3 0 ((<) 3) skipNone = Some [4, 5, 6]
   \<and> walkComposedTree 4 plainDoc 3 0 keepAll skipNone = Some [3, 4, 5, 6]
   \<and> (3::nat) = 3
   \<and> walkComposedTree 4 plainDoc 3 0 keepAll ((=) 3) = Some []
   \<and> (3::nat) \<noteq> 0 \<and> nodeType (heap plainDoc 3) \<noteq> 3
   \<and> walkComposedTree 4 plainDoc 3 3 keepAll skipNone = Some []"
proof -
  have nt: "nodeType (heap plainDoc 3) = 1"
    by code_simp
  have sk: "\<not> skipNone 3"
    by (simp add: skipNone_def)
  have below: "yieldAll (map (\<lambda>child. walkComposedTree 3 plainDoc child 0 ((<) 3) skipNone)
                 (composedChildren plainDoc 3)) = Some [4, 5, 6]"
    by code_simp
  have every: "walkComposedTree 4 plainDoc 3 0 keepAll skipNone = Some [3, 4, 5, 6]"
    by code_simp
  from walkComposedTree_keep_and_prune [of 3 plainDoc 3 0 "(<) 3" skipNone]
    walkComposedTree_keep_and_prune [of 3 plainDoc 3 0 keepAll "(=) 3"]
    walkComposedTree_keep_and_prune [of 3 plainDoc 3 3 keepAll skipNone]
    nt sk below every
  show ?thesis by simp
qed

subsection \<open>The shadow root is stepped over\<close>









subsection \<open>Without shadow subtrees and slots the walk is the plain pre-order traversal\<close>

lemma treeDepth_subtree: "t \<in> set ts \<Longrightarrow> treeDepth t \<le> foldr max (map treeDepth ts) 0"
  by (induction ts) auto

lemma yieldAll_all_Some:
  "(\<And>t. t \<in> set ts \<Longrightarrow> g t = Some (h t)) \<Longrightarrow> yieldAll (map g ts) = Some (concat (map h ts))"
  by (induction ts) simp_all

lemma composedChildren_plain:
  "shadowRoot (heap d n) = None \<Longrightarrow> \<not> instanceofHTMLSlotElement (cls (heap d n))
   \<Longrightarrow> composedChildren d n = childNodes (heap d n)"
  by (simp add: composedChildren_def)

text \<open>
  C5. For every finite tree \<open>t\<close> that the child nodes of the store span and that has no
  shadow subtree and no slot, the walk from the root of \<open>t\<close> with the default arguments
  (no node-type filter, keep everything, prune nothing) returns, as soon as the recursion
  may go as deep as the tree is, and what it produces is exactly the depth-first pre-order
  traversal of \<open>t\<close>.
\<close>

theorem walkComposedTree_plain_preorder:
  "isPlainTree d t \<Longrightarrow> treeDepth t \<le> fuel
   \<Longrightarrow> walkComposedTree fuel d (treeRoot t) 0 keepAll skipNone = Some (preorder t)"
proof (induction t arbitrary: fuel)
  case (DomTree n ts)
  from DomTree.prems(2) obtain k where fuel: "fuel = Suc k" and k: "foldr max (map treeDepth ts) 0 \<le> k"
    by (cases fuel) simp_all
  from DomTree.prems(1) have kids: "composedChildren d n = map treeRoot ts"
    by (simp add: composedChildren_plain)
  have sub: "walkComposedTree k d (treeRoot t) 0 keepAll skipNone = Some (preorder t)"
    if "t \<in> set ts" for t
  proof -
    from that DomTree.prems(1) have "isPlainTree d t" by simp
    moreover from that k have "treeDepth t \<le> k"
      using treeDepth_subtree [of t ts] by simp
    ultimately show ?thesis using that by (rule DomTree.IH [rotated])
  qed
  have "yieldAll (map (\<lambda>t. walkComposedTree k d (treeRoot t) 0 keepAll skipNone) ts)
      = Some (concat (map preorder ts))"
    by (rule yieldAll_all_Some) (rule sub)
  then show ?case
    by (simp add: fuel kids comp_def keepAll_def [of n] skipNone_def [of n])
qed

text \<open>The plain document, walked from the document node.\<close>

theorem walkComposedTree_plain_preorder_witness:
  "isPlainTree plainDoc plainDocTree \<and> treeDepth plainDocTree \<le> 6
   \<and> walkComposedTree 6 plainDoc 0 0 keepAll skipNone = Some [0, 1, 2, 3, 4, 5, 6]
   \<and> preorder plainDocTree = [0, 1, 2, 3, 4, 5, 6]"
proof -
  have a: "isPlainTree plainDoc plainDocTree"
    by code_simp
  have b: "treeDepth plainDocTree \<le> 6"
    by code_simp
  have r: "treeRoot plainDocTree = 0"
    by code_simp
  have p: "preorder plainDocTree = [0, 1, 2, 3, 4, 5, 6]"
    by code_simp
  from walkComposedTree_plain_preorder [OF a b] a b r p
  show ?thesis by simp
qed

section \<open>Properties of composedAncestors\<close>

lemma composedAncestors_None: "composedAncestors d None = Some []"
  by (simp add: composedAncestors.simps)

lemma composedAncestors_top:
  "composedNext d c = None \<Longrightarrow> composedAncestors d (Some c) = Some []"
  by (subst composedAncestors.simps) (simp add: composedAncestors_None)

lemma composedAncestors_step:
  "composedNext d c = Some p \<Longrightarrow> composedAncestors d (Some p) = Some ys
   \<Longrightarrow> composedAncestors d (Some c) = Some (p # ys)"
  by (subst composedAncestors.simps) simp

text \<open>Every node that the walk yields lies strictly above the node it started from.\<close>

lemma composedAncestors_above:
  assumes wf: "composedWellFormed d depth"
  shows "n \<in> set (nodes d) \<Longrightarrow>
    \<exists>ys. composedAncestors d (Some n) = Some ys \<and> (\<forall>y \<in> set ys. depth y < depth n)"
proof (induction "depth n" arbitrary: n rule: less_induct)
  case less
  show ?case
  proof (cases "composedNext d n")
    case None
    then show ?thesis by (simp add: composedAncestors_top)
  next
    case (Some p)
    with wf less.prems have p: "p \<in> set (nodes d)" and lt: "depth p < depth n"
      unfolding composedWellFormed_def by (fastforce split: option.splits)+
    from less.hyps [OF lt p] obtain ys where
      ys: "composedAncestors d (Some p) = Some ys" and below: "\<forall>y \<in> set ys. depth y < depth p"
      by blast
    from composedAncestors_step [OF Some ys] lt below show ?thesis
      by fastforce
  qed
qed

text \<open>
  C6. For every node of a well-formed store (some depth decreases along every
  composed-parent step), \<open>composedAncestors\<close> terminates with a finite sequence, and the
  starting node is not among the nodes it yields.
\<close>

theorem composedAncestors_finite_irreflexive:
  assumes "composedWellFormed d depth" and "node \<in> set (nodes d)"
  shows "\<exists>ys. composedAncestors d (Some node) = Some ys \<and> node \<notin> set ys"
  using composedAncestors_above [OF assms] by fastforce

text \<open>From the slot (3) of the slotted-text document: the shadow root, the host, the document.\<close>

theorem composedAncestors_finite_irreflexive_witness:
  "composedWellFormed slottedTextDoc id \<and> 3 \<in> set (nodes slottedTextDoc)
   \<and> composedAncestors slottedTextDoc (Some 3) = Some [2, 1, 0] \<and> 3 \<notin> set [2, 1, 0::nat]"
proof -
  have a: "composedWellFormed slottedTextDoc id"
    by code_simp
  have b: "3 \<in> set (nodes slottedTextDoc)"
    by code_simp
  have c: "composedAncestors slottedTextDoc (Some 3) = Some [2, 1, 0]"
    by code_simp
  from composedAncestors_finite_irreflexive [OF a b] a b c
  show ?thesis by simp
qed

section \<open>Properties of deepContains\<close>

text \<open>Where only HTML elements are slotted, the two upward steps are the same step.\<close>

lemma deepParent_composedNext:
  assumes "slottedAreHTMLElements d" and "n \<in> set (nodes d)"
  shows "deepParent d n = composedNext d n"
proof -
  from assms have
    slot: "assignedSlot (heap d n) \<noteq> None \<longrightarrow> instanceofHTMLElement (cls (heap d n))"
    and sr: "instanceofShadowRoot (cls (heap d n)) \<longrightarrow> parentNode (heap d n) = None"
    and el: "\<not> instanceofShadowRoot (cls (heap d n)) \<longrightarrow> host (heap d n) = None"
    unfolding slottedAreHTMLElements_def by blast+
  show ?thesis
  proof (cases "assignedSlot (heap d n)")
    case (Some sl)
    with slot show ?thesis
      by (simp add: deepParent_def composedNext_def)
  next
    case None
    show ?thesis
    proof (cases "instanceofShadowRoot (cls (heap d n))")
      case True
      with sr None show ?thesis
        by (simp add: deepParent_def composedNext_def)
    next
      case False
      with el None show ?thesis
        by (simp add: deepParent_def composedNext_def split: option.splits)
    qed
  qed
qed

lemma deepContains_None: "deepContains d container None = Some False"
  by (simp add: deepContains.simps)

lemma deepContains_Some:
  "deepContains d container (Some c) =
     (if deepParent d c = Some container then Some True
      else deepContains d container (deepParent d c))"
  by (subst deepContains.simps) (simp add: Let_def)

lemma deepContains_is_membership:
  assumes wf: "composedWellFormed d depth" and inv: "slottedAreHTMLElements d"
  shows "n \<in> set (nodes d) \<Longrightarrow>
    \<exists>ys. composedAncestors d (Some n) = Some ys
        \<and> deepContains d container (Some n) = Some (container \<in> set ys)"
proof (induction "depth n" arbitrary: n rule: less_induct)
  case less
  have same: "deepParent d n = composedNext d n"
    using inv less.prems by (rule deepParent_composedNext)
  show ?case
  proof (cases "composedNext d n")
    case None
    have "deepContains d container (Some n) = Some False"
      using deepContains_Some [of d container n] by (simp add: same None deepContains_None)
    with None show ?thesis
      by (simp add: composedAncestors_top)
  next
    case (Some p)
    with wf less.prems have p: "p \<in> set (nodes d)" and lt: "depth p < depth n"
      unfolding composedWellFormed_def by (fastforce split: option.splits)+
    from less.hyps [OF lt p] obtain ys where
      ys: "composedAncestors d (Some p) = Some ys"
      and dc: "deepContains d container (Some p) = Some (container \<in> set ys)"
      by blast
    have "deepContains d container (Some n) =
        (if Some p = Some container then Some True else deepContains d container (Some p))"
      using deepContains_Some [of d container n] by (simp only: same Some)
    with dc have "deepContains d container (Some n) = Some (container \<in> set (p # ys))"
      by auto
    with composedAncestors_step [OF Some ys] show ?thesis
      by blast
  qed
qed

text \<open>
  Where no node other than an HTML element has an assigned slot, the two walks agree:
  \<open>deepContains(container, target)\<close> is true exactly when \<open>container\<close> is among the nodes
  that \<open>composedAncestors(target)\<close> yields, and \<open>deepContains(target, target)\<close> is false.
\<close>

lemma deepContains_composedAncestors_agree:
  assumes "composedWellFormed d depth" and "slottedAreHTMLElements d"
    and "target \<in> set (nodes d)"
  shows "\<exists>ys. composedAncestors d (Some target) = Some ys
           \<and> deepContains d container (Some target) = Some (container \<in> set ys)
           \<and> deepContains d target (Some target) = Some False"
proof -
  from deepContains_is_membership [OF assms, of container] obtain ys where
    ys: "composedAncestors d (Some target) = Some ys"
    and dc: "deepContains d container (Some target) = Some (container \<in> set ys)"
    by blast
  from deepContains_is_membership [OF assms, of target] ys
  have "deepContains d target (Some target) = Some (target \<in> set ys)"
    by simp
  moreover from composedAncestors_above [OF assms(1,3)] ys
  have "target \<notin> set ys" by fastforce
  ultimately show ?thesis using ys dc by simp
qed

lemma deepContains_composedAncestors_agree_example:
  "composedAncestors slottedSpanDoc (Some 4) = Some [3, 2, 1, 0]
   \<and> deepContains slottedSpanDoc 3 (Some 4) = Some True
   \<and> deepContains slottedSpanDoc 2 (Some 4) = Some True
   \<and> deepContains slottedSpanDoc 4 (Some 4) = Some False"
  by code_simp

text \<open>
  C2 says that \<open>deepContains(A, B)\<close> is true exactly when \<open>composedAncestors(B)\<close> yields
  \<open>A\<close>. The code breaks this at every slotted node that is not an \<open>HTMLElement\<close> (a text
  node, an SVG element): \<open>deepContains\<close> steps from the node to its assigned slot and so
  finds the slot, while \<open>composedAncestors\<close> looks at the assigned slot only behind
  \<open>current instanceof HTMLElement\<close>, steps to the parent node instead, and yields the
  parent followed by the parent's composed ancestors, against its own documentation
  ("the ancestor of a node assigned to a slot is that slot, not the node's DOM ancestor").
\<close>

theorem composedAncestors_misses_slot_of_non_HTMLElement:
  assumes "assignedSlot (heap d n) = Some slot"
    and "\<not> instanceofHTMLElement (cls (heap d n))"
    and "\<not> instanceofShadowRoot (cls (heap d n))"
    and "parentNode (heap d n) = Some p"
    and "composedAncestors d (Some p) = Some ys"
  shows "deepContains d slot (Some n) = Some True
    \<and> composedAncestors d (Some n) = Some (p # ys)"
proof
  from assms(1) have "deepParent d n = Some slot"
    by (simp add: deepParent_def)
  then show "deepContains d slot (Some n) = Some True"
    by (simp add: deepContains_Some)
  from assms(2,3,4) have "composedNext d n = Some p"
    by (simp add: composedNext_def)
  then show "composedAncestors d (Some n) = Some (p # ys)"
    using assms(5) by (rule composedAncestors_step)
qed

text \<open>
  The text (4) of the slotted-text document is assigned to the slot (3): the slot
  deep-contains the text, and the composed ancestors of the text are the host (1) and the
  document (0), without the slot.
\<close>

theorem composedAncestors_misses_slot_of_non_HTMLElement_witness:
  "assignedSlot (heap slottedTextDoc 4) = Some 3
   \<and> \<not> instanceofHTMLElement (cls (heap slottedTextDoc 4))
   \<and> \<not> instanceofShadowRoot (cls (heap slottedTextDoc 4))
   \<and> parentNode (heap slottedTextDoc 4) = Some 1
   \<and> composedAncestors slottedTextDoc (Some 1) = Some [0]
   \<and> deepContains slottedTextDoc 3 (Some 4) = Some True
   \<and> composedAncestors slottedTextDoc (Some 4) = Some [1, 0]
   \<and> 3 \<notin> set [1, 0::nat]"
proof -
  have a: "assignedSlot (heap slottedTextDoc 4) = Some 3"
    by code_simp
  have b: "\<not> instanceofHTMLElement (cls (heap slottedTextDoc 4))"
    by code_simp
  have c: "\<not> instanceofShadowRoot (cls (heap slottedTextDoc 4))"
    by code_simp
  have e: "parentNode (heap slottedTextDoc 4) = Some 1"
    by code_simp
  have g: "composedAncestors slottedTextDoc (Some 1) = Some [0]"
    by code_simp
  from composedAncestors_misses_slot_of_non_HTMLElement [OF a b c e g] a b c e g
  show ?thesis by simp
qed

section \<open>Properties of getDeepActiveElement\<close>

lemma getDeepActiveElement_no_active:
  "(case root' of None \<Rightarrow> None | Some r \<Rightarrow> activeElement (heap d r)) = None
   \<Longrightarrow> getDeepActiveElement d root' = Some (body d)"
  by (subst getDeepActiveElement.simps) simp

lemma getDeepActiveElement_leaf:
  "activeElement (heap d r) = Some activeEl \<Longrightarrow> shadowRoot (heap d activeEl) = None
   \<Longrightarrow> getDeepActiveElement d (Some r) = Some (Some activeEl)"
  by (subst getDeepActiveElement.simps) simp

lemma getDeepActiveElement_host:
  "activeElement (heap d r) = Some activeEl \<Longrightarrow> shadowRoot (heap d activeEl) = Some sr
   \<Longrightarrow> getDeepActiveElement d (Some r) =
       Option.bind (getDeepActiveElement d (Some sr))
         (\<lambda>deeper. Some (case deeper of None \<Rightarrow> Some activeEl | Some el \<Rightarrow> Some el))"
  by (subst getDeepActiveElement.simps) simp

text \<open>When the shadow subtree has a deeper result, that result is returned.\<close>

lemma getDeepActiveElement_deeper:
  "activeElement (heap d r) = Some activeEl \<Longrightarrow> shadowRoot (heap d activeEl) = Some sr
   \<Longrightarrow> getDeepActiveElement d (Some sr) = Some (Some el)
   \<Longrightarrow> getDeepActiveElement d (Some r) = Some (Some el)"
  by (simp add: getDeepActiveElement_host)

text \<open>
  C1 says that a root whose active element hosts a shadow subtree gives the deeper active
  element if there is one and the active element of this level otherwise. The first half
  is the lemma above. The second half fails on the code: when the host itself has the
  focus, its shadow root has no active element, the recursive call answers with
  \<open>document.body\<close>, and in a document with a body that is what the function returns, not
  the host; the \<open>??\<close> of the source only sees \<open>null\<close> when the document has no body.
\<close>

theorem getDeepActiveElement_focused_host_gives_body:
  assumes "activeElement (heap d r) = Some activeEl"
    and "shadowRoot (heap d activeEl) = Some sr"
    and "activeElement (heap d sr) = None"
    and "body d = Some b"
  shows "getDeepActiveElement d (Some r) = Some (Some b)"
proof -
  from assms(3) have "getDeepActiveElement d (Some sr) = Some (body d)"
    by (simp add: getDeepActiveElement_no_active)
  with assms(1,2,4) show ?thesis
    by (simp add: getDeepActiveElement_host)
qed

text \<open>
  The focus document with body (2), the host (3) focused and nothing focused inside its
  shadow root (4): the result is the body, not the host.
\<close>

theorem getDeepActiveElement_focused_host_gives_body_witness:
  "activeElement (heap (focusDoc (Some 2) None) 0) = Some 3
   \<and> shadowRoot (heap (focusDoc (Some 2) None) 3) = Some 4
   \<and> activeElement (heap (focusDoc (Some 2) None) 4) = None
   \<and> body (focusDoc (Some 2) None) = Some 2
   \<and> getDeepActiveElement (focusDoc (Some 2) None) (Some 0) = Some (Some 2)"
proof -
  have a: "activeElement (heap (focusDoc (Some 2) None) 0) = Some 3"
    by code_simp
  have b: "shadowRoot (heap (focusDoc (Some 2) None) 3) = Some 4"
    by code_simp
  have c: "activeElement (heap (focusDoc (Some 2) None) 4) = None"
    by code_simp
  have e: "body (focusDoc (Some 2) None) = Some 2"
    by code_simp
  from getDeepActiveElement_focused_host_gives_body [OF a b c e] a b c e
  show ?thesis by simp
qed

lemma getDeepActiveElement_returns_node:
  assumes fin: "shadowNestingFinite d level" and bd: "body d = Some b"
  shows "r \<in> set (nodes d) \<Longrightarrow> \<exists>el. getDeepActiveElement d (Some r) = Some (Some el)"
proof (induction "level r" arbitrary: r rule: less_induct)
  case less
  show ?case
  proof (cases "activeElement (heap d r)")
    case None
    then show ?thesis
      by (simp add: getDeepActiveElement_no_active bd)
  next
    case (Some activeEl)
    show ?thesis
    proof (cases "shadowRoot (heap d activeEl)")
      case None
      with Some show ?thesis
        by (simp add: getDeepActiveElement_leaf)
    next
      case sr: (Some sr)
      with Some have "activeShadowRoot d r = Some sr"
        by (simp add: activeShadowRoot_def)
      with fin less.prems have "sr \<in> set (nodes d)" and "level sr < level r"
        unfolding shadowNestingFinite_def by (fastforce split: option.splits)+
      from less.hyps [OF this(2,1)] obtain el where
        "getDeepActiveElement d (Some sr) = Some (Some el)"
        by blast
      with Some sr show ?thesis
        by (simp add: getDeepActiveElement_deeper)
    qed
  qed
qed

text \<open>
  C10, as amended. Whenever \<open>document.body\<close> is not \<open>null\<close> (and shadow subtrees do not
  nest for ever), \<open>getDeepActiveElement\<close> returns a node, never \<open>null\<close>, for every root
  argument, \<open>null\<close> included; and at a root whose active element hosts a shadow subtree
  the result is the result of the recursive call, so the \<open>??\<close> fallback to the active
  element of the current level is not taken.
\<close>

theorem getDeepActiveElement_never_null:
  assumes "shadowNestingFinite d level" and "body d = Some b"
    and "case root' of None \<Rightarrow> True | Some r \<Rightarrow> r \<in> set (nodes d)"
  shows "(\<exists>el. getDeepActiveElement d root' = Some (Some el))
    \<and> (root' = Some r \<and> activeElement (heap d r) = Some activeEl
          \<and> shadowRoot (heap d activeEl) = Some sr
        \<longrightarrow> getDeepActiveElement d root' = getDeepActiveElement d (Some sr))"
proof (intro conjI impI)
  show "\<exists>el. getDeepActiveElement d root' = Some (Some el)"
  proof (cases root')
    case None
    then show ?thesis
      by (simp add: getDeepActiveElement_no_active assms(2))
  next
    case (Some r0)
    with assms(3) have "r0 \<in> set (nodes d)" by simp
    from getDeepActiveElement_returns_node [OF assms(1,2) this] Some show ?thesis
      by simp
  qed
next
  assume h: "root' = Some r \<and> activeElement (heap d r) = Some activeEl
          \<and> shadowRoot (heap d activeEl) = Some sr"
  with assms(3) have r: "r \<in> set (nodes d)" by simp
  from h have "activeShadowRoot d r = Some sr"
    by (simp add: activeShadowRoot_def)
  with assms(1) r have "sr \<in> set (nodes d)"
    unfolding shadowNestingFinite_def by (fastforce split: option.splits)
  from getDeepActiveElement_returns_node [OF assms(1,2) this] obtain el where
    el: "getDeepActiveElement d (Some sr) = Some (Some el)"
    by blast
  with h have "getDeepActiveElement d (Some r) = Some (Some el)"
    by (simp add: getDeepActiveElement_deeper)
  with el h show "getDeepActiveElement d root' = getDeepActiveElement d (Some sr)"
    by simp
qed

text \<open>
  C10, as stated, fails in a document without body element: \<open>document.body\<close> is \<open>null\<close>
  there, the function returns \<open>null\<close> for the shadow root (4) that has no active element
  and for a \<open>null\<close> root, and from the document (0) the \<open>??\<close> fallback is taken and
  gives the host (3).
\<close>

theorem getDeepActiveElement_null_body_counterexample:
  "getDeepActiveElement (focusDoc None None) (Some 4) = Some None
   \<and> getDeepActiveElement (focusDoc None None) None = Some None
   \<and> getDeepActiveElement (focusDoc None None) (Some 0) = Some (Some 3)"
  by code_simp

text \<open>The focus document with body (2) and the button (5) in the shadow root focused.\<close>

theorem getDeepActiveElement_never_null_witness:
  "shadowNestingFinite (focusDoc (Some 2) (Some 5)) countdown
   \<and> body (focusDoc (Some 2) (Some 5)) = Some 2
   \<and> 0 \<in> set (nodes (focusDoc (Some 2) (Some 5)))
   \<and> activeElement (heap (focusDoc (Some 2) (Some 5)) 0) = Some 3
   \<and> shadowRoot (heap (focusDoc (Some 2) (Some 5)) 3) = Some 4
   \<and> getDeepActiveElement (focusDoc (Some 2) (Some 5)) (Some 0) = Some (Some 5)
   \<and> getDeepActiveElement (focusDoc (Some 2) (Some 5)) (Some 4) = Some (Some 5)"
proof -
  have a: "shadowNestingFinite (focusDoc (Some 2) (Some 5)) countdown"
    by code_simp
  have b: "body (focusDoc (Some 2) (Some 5)) = Some 2"
    by code_simp
  have c: "case Some 0 of None \<Rightarrow> True | Some r \<Rightarrow> r \<in> set (nodes (focusDoc (Some 2) (Some 5)))"
    by code_simp
  have e: "activeElement (heap (focusDoc (Some 2) (Some 5)) 0) = Some 3"
    by code_simp
  have g: "shadowRoot (heap (focusDoc (Some 2) (Some 5)) 3) = Some 4"
    by code_simp
  have v: "getDeepActiveElement (focusDoc (Some 2) (Some 5)) (Some 4) = Some (Some 5)"
    by code_simp
  from getDeepActiveElement_never_null [OF a b c, of 0 3 4] a b c e g v
  show ?thesis by simp
qed

section \<open>Properties of the auxiliary functions\<close>

text \<open>
  Whatever the page's listeners are: when the dispatch of the copy reports that it was
  not dispatched, \<open>redispatchEventFromEvent\<close> returns \<open>false\<close> and has called
  \<open>preventDefault\<close> on the original event, as the last call it makes on it.
\<close>

lemma redispatchEventFromEvent_not_dispatched:
  assumes "\<not> dispatchEvent element (constructEvent (evType ev) (ownProperties ev ++ options))"
  shows "fst (redispatchEventFromEvent dispatchEvent d element ev options) = False
    \<and> PreventDefault \<in> set (calls (snd (redispatchEventFromEvent dispatchEvent d element ev options)))
    \<and> last (calls (snd (redispatchEventFromEvent dispatchEvent d element ev options))) = PreventDefault"
  using assms
  by (simp add: redispatchEventFromEvent_def Let_def preventDefault_def stopPropagation_def)

text \<open>
  That is what happens to a cancelable click that is re-dispatched with the option
  \<open>{cancelable: true}\<close> from an element whose listener cancels it.
\<close>

lemma redispatchEventFromEvent_cancelable_option:
  "redispatchEventFromEvent (dispatchWithListeners cancellingListeners) plainDoc 3
     clickEvent cancelableOption
   = (False, clickEvent\<lparr>calls := [StopPropagation, PreventDefault]\<rparr>)"
  by (simp add: redispatchEventFromEvent_def Let_def preventDefault_def stopPropagation_def
      dispatchWithListeners_def cancellingListeners_def cancellingListener_def
      constructEvent_def clickEvent_def cancelableOption_def)

text \<open>
  C8 says that for every cancelable event whose copy a listener of the element cancels,
  \<open>preventDefault\<close> is called on the original event and the function returns \<open>false\<close>.
  The code breaks this whenever the options do not themselves say \<open>cancelable\<close>: the
  dictionary of the copy is \<open>{...ev, ...options}\<close>, and \<open>cancelable\<close> (like \<open>bubbles\<close> and
  \<open>composed\<close>) is not an own enumerable property of an event, so the copy is not
  cancelable, whatever the original is. No listener can cancel it: the dispatch reports
  \<open>true\<close>, the function returns \<open>true\<close>, and the only call it may have made on the original
  event is \<open>stopPropagation\<close>.
\<close>

theorem redispatchEventFromEvent_copy_not_cancelable:
  assumes "ownProperties ev ''cancelable'' = None"
    and "options ''cancelable'' = None"
  shows "redispatchEventFromEvent (dispatchWithListeners listeners) d element ev options
    = (True,
       if bubbles ev \<and> (shadowRoot (heap d element) = None \<or> composed ev)
       then ev\<lparr>calls := calls ev @ [StopPropagation]\<rparr> else ev)"
  using assms
  by (simp add: redispatchEventFromEvent_def Let_def stopPropagation_def
      dispatchWithListeners_def constructEvent_def map_add_def)

text \<open>
  A cancelable click, re-dispatched with the default options from an element whose
  listener cancels what it receives: the function returns \<open>true\<close> and \<open>preventDefault\<close>
  is not called on the click.
\<close>

theorem redispatchEventFromEvent_copy_not_cancelable_witness:
  "cancelable clickEvent
   \<and> ownProperties clickEvent ''cancelable'' = None
   \<and> Map.empty ''cancelable'' = (None :: bool option)
   \<and> cancellingListeners 3 = [cancellingListener]
   \<and> cancellingListener clickEvent
   \<and> redispatchEventFromEvent (dispatchWithListeners cancellingListeners) plainDoc 3
        clickEvent Map.empty
      = (True, clickEvent\<lparr>calls := [StopPropagation]\<rparr>)"
proof -
  have a: "ownProperties clickEvent ''cancelable'' = None"
    by (simp add: clickEvent_def)
  have b: "Map.empty ''cancelable'' = (None :: bool option)"
    by simp
  have c: "cancelable clickEvent \<and> bubbles clickEvent \<and> composed clickEvent \<and> calls clickEvent = []"
    by (simp add: clickEvent_def)
  have l: "cancellingListeners 3 = [cancellingListener] \<and> cancellingListener clickEvent"
    by (simp add: cancellingListeners_def cancellingListener_def)
  from redispatchEventFromEvent_copy_not_cancelable
         [where ev = clickEvent and options = Map.empty and listeners = cancellingListeners
            and d = plainDoc and element = 3, OF a b]
       a b c l
  show ?thesis by simp
qed

text \<open>
  C9. \<open>isClickInsideRect\<close> is the test with inclusive bounds on all four edges:
  \<open>top \<le> clientY \<le> top + height\<close> and \<open>left \<le> clientX \<le> left + width\<close>. For the
  rectangle with top 0, left 0, height 10 and width 10 the point (5, 5) is inside, the
  point (11, 5) is outside, and a coordinate on the boundary value 10 (or 0) is inside.
\<close>

theorem isClickInsideRect_inclusive:
  "(isClickInsideRect r ev \<longleftrightarrow>
      top' r \<le> clientY ev \<and> clientY ev \<le> top' r + height r
      \<and> left r \<le> clientX ev \<and> clientX ev \<le> left r + width r)
   \<and> isClickInsideRect \<lparr>top' = 0, left = 0, height = 10, width = 10\<rparr> \<lparr>clientX = 5, clientY = 5\<rparr>
   \<and> \<not> isClickInsideRect \<lparr>top' = 0, left = 0, height = 10, width = 10\<rparr> \<lparr>clientX = 11, clientY = 5\<rparr>
   \<and> isClickInsideRect \<lparr>top' = 0, left = 0, height = 10, width = 10\<rparr> \<lparr>clientX = 10, clientY = 5\<rparr>
   \<and> isClickInsideRect \<lparr>top' = 0, left = 0, height = 10, width = 10\<rparr> \<lparr>clientX = 5, clientY = 10\<rparr>
   \<and> isClickInsideRect \<lparr>top' = 0, left = 0, height = 10, width = 10\<rparr> \<lparr>clientX = 0, clientY = 0\<rparr>
   \<and> isClickInsideRect \<lparr>top' = 0, left = 0, height = 10, width = 10\<rparr> \<lparr>clientX = 10, clientY = 10\<rparr>"
  by (simp add: isClickInsideRect_def)

text \<open>With an end that is not positive, \<open>substring(2, end)\<close> is \<open>substring(0, 2)\<close>.\<close>

lemma substring_swapped:
  "len \<le> 0 \<Longrightarrow> substring s 2 len = take 2 s"
  by (simp add: substring_def Let_def min_def max_def)

text \<open>
  C7 says that \<open>randomID\<close> returns the empty string for a length that is 0 or negative.
  It does not: the length is passed as the end index of \<open>substring(2, length)\<close>, the two
  indices are swapped, and the result is the first two characters of the rendered random
  number, \<open>0.\<close> (or \<open>0\<close>), which is not empty.
\<close>

theorem randomID_nonpositive_length:
  assumes "len \<le> 0" and "isRandom36 random36"
  shows "randomID random36 len = take 2 random36 \<and> randomID random36 len \<noteq> ''''"
proof -
  from assms(2) have "random36 \<noteq> []"
    by (auto simp: isRandom36_def)
  with assms(1) show ?thesis
    by (simp add: randomID_def substring_swapped)
qed

theorem randomID_nonpositive_length_witness:
  "(0::int) \<le> 0 \<and> isRandom36 ''0.4fzyo82mvyr''
   \<and> randomID ''0.4fzyo82mvyr'' 0 = ''0.'' \<and> ''0.'' \<noteq> ''''"
proof -
  have a: "(0::int) \<le> 0" by simp
  have b: "isRandom36 ''0.4fzyo82mvyr''" by code_simp
  from randomID_nonpositive_length [OF a b] a b
  show ?thesis by simp
qed

text \<open>
  The other half of C7 holds: \<open>randomID(10)\<close> has at most 10 characters (at most 8,
  in fact), all of them base-36 digits.
\<close>

lemma randomID_default_length:
  assumes "isRandom36 random36"
  shows "length (randomID random36 10) \<le> 8
    \<and> length (randomID random36 10) \<le> 10
    \<and> list_all isBase36Digit (randomID random36 10)"
proof (cases "random36 = ''0''")
  case True
  then show ?thesis by (simp add: randomID_def substring_def)
next
  case False
  with assms have digits: "list_all isBase36Digit (drop 2 random36)"
    by (simp add: isRandom36_def)
  have eq: "randomID random36 10 = take (min 10 (length random36) - 2) (drop 2 random36)"
    by (simp add: randomID_def substring_def Let_def min_def max_def nat_diff_distrib)
  have "list_all isBase36Digit (take n (drop 2 random36))" for n
    using digits by (auto simp: list_all_iff dest: in_set_takeD)
  moreover have "min 10 (length random36) - 2 \<le> 8"
    by arith
  ultimately show ?thesis using eq by simp
qed

end
